theory Spec2Isabelle
  imports Complex_Main "HOL-Library.Sublist"
begin

section \<open>Text\<close>

text \<open>
  A JavaScript string is a sequence of UTF-16 code units. A code unit is modelled as a
  natural number and a string as the list of its code units; \<open>str\<close> turns an ASCII
  literal into such a list.
\<close>

type_synonym code_unit = nat

type_synonym jsstring = "code_unit list"

definition str :: "string \<Rightarrow> jsstring" where
  "str s = map of_char s"

text \<open>
  \<open>toLowerCase\<close> replaces every character by its lower-case form. The model keeps the
  result up to what lies beyond ASCII: a code unit of the result is \<open>Some u\<close> when it is
  the ASCII code unit \<open>u\<close>, and \<open>None\<close> when it is some code unit beyond ASCII, which one
  is not recorded. The forms that reach into ASCII are: \<open>A\<close>..\<open>Z\<close> become \<open>a\<close>..\<open>z\<close>, any
  other ASCII character stays, the Kelvin sign U+212A becomes \<open>k\<close>, and U+0130 becomes
  \<open>i\<close> followed by the combining dot U+0307, the one form that is longer than its
  character. Every other code unit gives one code unit beyond ASCII: a character with a
  lower-case form has it there, a surrogate pair stays a surrogate pair.
\<close>

type_synonym lowered = "code_unit option list"

definition lower_unit :: "code_unit \<Rightarrow> lowered" where
  "lower_unit c =
     (if 0x41 \<le> c \<and> c \<le> 0x5A then [Some (c + 0x20)]
      else if c < 0x80 then [Some c]
      else if c = 0x212A then [Some 0x6B]
      else if c = 0x130 then [Some 0x69, None]
      else [None])"

definition toLowerCase :: "jsstring \<Rightarrow> lowered" where
  "toLowerCase s = concat (map lower_unit s)"

text \<open>
  The characters that \<open>trim\<close> strips: the white space of ECMAScript (tab, vertical tab,
  form feed, U+FEFF and the space separators of Unicode) and its line terminators (line
  feed, carriage return, U+2028, U+2029).
\<close>

definition isWhiteSpace :: "code_unit \<Rightarrow> bool" where
  "isWhiteSpace c =
     (c = 0x09 \<or> c = 0x0A \<or> c = 0x0B \<or> c = 0x0C \<or> c = 0x0D \<or> c = 0x20 \<or>
      c = 0xA0 \<or> c = 0x1680 \<or> (0x2000 \<le> c \<and> c \<le> 0x200A) \<or>
      c = 0x2028 \<or> c = 0x2029 \<or> c = 0x202F \<or> c = 0x205F \<or> c = 0x3000 \<or>
      c = 0xFEFF)"

definition trim :: "jsstring \<Rightarrow> jsstring" where
  "trim s = rev (dropWhile isWhiteSpace (rev (dropWhile isWhiteSpace s)))"

text \<open>\<open>s.startsWith(p)\<close>, and \<open>s.includes(p)\<close>: \<open>p\<close> occurs in \<open>s\<close> at some position.\<close>

fun startsWith :: "'a list \<Rightarrow> 'a list \<Rightarrow> bool" where
  "startsWith s [] = True"
| "startsWith [] (p # ps) = False"
| "startsWith (c # cs) (p # ps) = (c = p \<and> startsWith cs ps)"

fun str_includes :: "'a list \<Rightarrow> 'a list \<Rightarrow> bool" where
  "str_includes [] p = startsWith [] p"
| "str_includes (c # cs) p = (startsWith (c # cs) p \<or> str_includes cs p)"

section \<open>The crisis classifier\<close>

definition CRISIS_KEYWORDS :: "jsstring list" where
  "CRISIS_KEYWORDS =
     [str ''suicide'', str ''kill myself'', str ''end my life'', str ''want to die'',
      str ''hurt myself'', str ''harm myself'', str ''violent'', str ''no reason to live'']"

text \<open>The phrases are ASCII, so each of their code units is looked for as \<open>Some\<close> of it.\<close>

definition containsCrisis :: "jsstring \<Rightarrow> bool" where
  "containsCrisis text =
     (if text = [] then False
      else let lower = toLowerCase text
           in list_ex (\<lambda>kw. str_includes lower (map Some kw)) CRISIS_KEYWORDS)"

section \<open>JSON values\<close>

text \<open>
  What \<open>res.json()\<close> yields. The handler stores the reply it finds there as the text of a
  turn without looking at its type, so the text of a turn is a JSON value as well: a
  string wherever the code is used as its types intend. A number is the value of a
  double: a rational, or an infinity, which a literal beyond the range of the doubles
  parses to. In an object a later member overrides an earlier one of the same name.
\<close>

datatype number = Finite rat | PlusInfinity | MinusInfinity

datatype json =
    JNull
  | JBool bool
  | JNumber number
  | JString jsstring
  | JArray "json list"
  | JObject "(jsstring \<times> json) list"

text \<open>
  \<open>data.reply\<close> and \<open>data.flagged\<close> for a value that is not \<open>null\<close>: the member of an
  object, \<open>undefined\<close> (here \<open>None\<close>) when the object has no such member and for a value
  of any other kind.
\<close>

definition member :: "jsstring \<Rightarrow> json \<Rightarrow> json option" where
  "member name d = (case d of JObject kvs \<Rightarrow> map_of (rev kvs) name | _ \<Rightarrow> None)"

definition data_reply :: "json \<Rightarrow> json option" where
  "data_reply d = member (str ''reply'') d"

definition data_flagged :: "json \<Rightarrow> json option" where
  "data_flagged d = member (str ''flagged'') d"

text \<open>The truth value that \<open>&&\<close> and \<open>||\<close> see in a value.\<close>

fun truthy :: "json option \<Rightarrow> bool" where
  "truthy None = False"
| "truthy (Some JNull) = False"
| "truthy (Some (JBool b)) = b"
| "truthy (Some (JNumber x)) = (x \<noteq> Finite 0)"
| "truthy (Some (JString s)) = (s \<noteq> [])"
| "truthy (Some (JArray xs)) = True"
| "truthy (Some (JObject kvs)) = True"

text \<open>\<open>a || b\<close> with a defined \<open>b\<close>.\<close>

definition or_else :: "json option \<Rightarrow> json \<Rightarrow> json" where
  "or_else a b = (case a of None \<Rightarrow> b | Some v \<Rightarrow> if truthy (Some v) then v else b)"

section \<open>Messages and the outbound payload\<close>

datatype role = System | Assistant | User

text \<open>The time of a message is an ISO time stamp, which is ASCII.\<close>

record Message =
  m_id :: nat
  m_role :: role
  m_text :: json
  m_time :: string

text \<open>
  An element of \<open>payload.messages\<close> is a JavaScript object. The ones taken from the log are
  the stored messages themselves, so they carry \<open>id\<close> and \<open>time\<close>; the object literal for
  the text being sent has \<open>role\<close> and \<open>text\<close> only. An absent property is \<open>None\<close>.
\<close>

record entry =
  e_id :: "nat option"
  e_role :: role
  e_text :: json
  e_time :: "string option"

record payload_settings =
  s_tone :: jsstring

record payload_metadata =
  md_userName :: jsstring

record Payload =
  p_messages :: "entry list"
  p_settings :: payload_settings
  p_metadata :: payload_metadata

definition as_entry :: "Message \<Rightarrow> entry" where
  "as_entry m =
     \<lparr>e_id = Some (m_id m), e_role = m_role m, e_text = m_text m, e_time = Some (m_time m)\<rparr>"

definition user_entry :: "jsstring \<Rightarrow> entry" where
  "user_entry userText =
     \<lparr>e_id = None, e_role = User, e_text = JString userText, e_time = None\<rparr>"

text \<open>\<open>xs.slice(-n)\<close>: the last \<open>n\<close> elements, all of them when there are fewer.\<close>

definition slice_last :: "nat \<Rightarrow> 'a list \<Rightarrow> 'a list" where
  "slice_last n xs = drop (length xs - n) xs"

definition payload :: "Message list \<Rightarrow> jsstring \<Rightarrow> jsstring \<Rightarrow> jsstring \<Rightarrow> Payload" where
  "payload msgs tone_now userName_now userText =
     \<lparr>p_messages = slice_last 20 (map as_entry msgs @ [user_entry userText]),
      p_settings = \<lparr>s_tone = tone_now\<rparr>,
      p_metadata = \<lparr>md_userName = userName_now\<rparr>\<rparr>"

section \<open>The component's state\<close>

text \<open>
  A fetch call that has been issued: the payload it carries, and the value of
  \<open>showCrisisModal\<close> that the suspended handler captured when it started.
\<close>

record call =
  c_payload :: Payload
  c_showCrisisModal :: bool

text \<open>
  The state hooks and the \<open>messageId\<close> ref of the component, and, as the environment,
  the fetch calls issued so far, oldest first. A state setter is modelled as an update of
  the state; a handler reads the values of the render in which it was created, that is the
  state at the moment the event arrives. The counter is a JavaScript number, modelled as a
  natural number (exact up to \<open>2^53\<close>). \<open>new Date().toISOString()\<close> is a parameter of the
  operations that read the clock.
\<close>

record state =
  messages :: "Message list"
  input :: jsstring
  loading :: bool
  showCrisisModal :: bool
  userName :: jsstring
  consentChecked :: bool
  settingsOpen :: bool
  tone :: jsstring
  error :: "jsstring option"
  messageId :: nat
  requests :: "call list"

definition em_dash :: jsstring where
  "em_dash = [0x2014]"

definition SYSTEM_TEXT :: jsstring where
  "SYSTEM_TEXT = str ''You are a compassionate, nonjudgmental mental health assistant. Provide psychoeducation, empathic reflections, coping strategies, and encourage users to seek professional help when appropriate. If the user describes imminent danger or self-harm, immediately display crisis resources and encourage contacting local emergency services.''"

definition GREETING_TEXT :: jsstring where
  "GREETING_TEXT = str ''Hi '' @ em_dash @ str '' I'm here to listen and to help you understand what's going on. You can share whatever you feel comfortable with. If this is an emergency or you're thinking of harming yourself, please tell me and I'll help you find immediate support.''"

definition CONSENT_ERROR :: jsstring where
  "CONSENT_ERROR = str ''Please confirm that you consent to have this conversation processed by the assistant.''"

definition NO_REPLY_TEXT :: jsstring where
  "NO_REPLY_TEXT = str ''Sorry '' @ em_dash @ str '' I couldn't generate a response.''"

definition FETCH_ERROR :: jsstring where
  "FETCH_ERROR = str ''Failed to reach the assistant. Try again later.''"

definition TROUBLE_TEXT :: jsstring where
  "TROUBLE_TEXT = str ''I'm having trouble right now. Please try again later.''"

definition initial_state :: "string \<Rightarrow> string \<Rightarrow> state" where
  "initial_state t0 t1 =
     \<lparr>messages =
        [\<lparr>m_id = 0, m_role = System, m_text = JString SYSTEM_TEXT, m_time = t0\<rparr>,
         \<lparr>m_id = 1, m_role = Assistant, m_text = JString GREETING_TEXT, m_time = t1\<rparr>],
      input = [],
      loading = False,
      showCrisisModal = False,
      userName = [],
      consentChecked = False,
      settingsOpen = False,
      tone = str ''compassionate'',
      error = None,
      messageId = 2,
      requests = []\<rparr>"

definition addMessage :: "role \<Rightarrow> json \<Rightarrow> string \<Rightarrow> state \<Rightarrow> Message \<times> state" where
  "addMessage r txt now s =
     (let m = \<lparr>m_id = messageId s, m_role = r, m_text = txt, m_time = now\<rparr>
      in (m, s\<lparr>messageId := messageId s + 1, messages := messages s @ [m]\<rparr>))"

section \<open>handleSend\<close>

text \<open>
  An async function runs without interruption up to its first \<open>await\<close>. \<open>handleSend\<close>
  awaits the fetch call, so it is modelled in two parts: \<open>handleSend_start\<close>, from the
  click to the fetch call, and \<open>handleSend_resume\<close>, what the handler does once the call
  has settled. Other events may change the state in between. The first part is split at
  the fetch call: \<open>handleSend_prepare\<close> is lines 82 to 90 of the source,
  \<open>handleSend_dispatch\<close> lines 92 to 102, which read \<open>messages\<close>, \<open>tone\<close> and \<open>userName\<close>
  of the state in which the handler started.
\<close>

definition handleSend_prepare :: "string \<Rightarrow> state \<Rightarrow> state" where
  "handleSend_prepare now s =
     (let userText = trim (input s);
          s1 = snd (addMessage User (JString userText) now s);
          s2 = s1\<lparr>input := []\<rparr>;
          s3 = (if containsCrisis userText then s2\<lparr>showCrisisModal := True\<rparr> else s2)
      in s3\<lparr>loading := True\<rparr>)"

definition handleSend_dispatch :: "state \<Rightarrow> state \<Rightarrow> state" where
  "handleSend_dispatch s0 s =
     (let p = payload (messages s0) (tone s0) (userName s0) (trim (input s0))
      in s\<lparr>requests := requests s @ [\<lparr>c_payload = p, c_showCrisisModal = showCrisisModal s0\<rparr>]\<rparr>)"

definition handleSend_start :: "string \<Rightarrow> state \<Rightarrow> state" where
  "handleSend_start now s =
     (if trim (input s) = [] then s
      else let s1 = s\<lparr>error := None\<rparr>
           in if \<not> consentChecked s then s1\<lparr>error := Some CONSENT_ERROR\<rparr>
              else handleSend_dispatch s (handleSend_prepare now s1))"

text \<open>
  What a fetch call settles to. The promise is rejected (no network), or there is a
  response with a status and a body, and the body is not JSON or parses to a JSON value.
\<close>

datatype body = Malformed | Parsed json

datatype fetch_result = Rejected | Response nat body

datatype fault = NetworkError | ServerError nat | SyntaxError | TypeError

definition res_ok :: "nat \<Rightarrow> bool" where
  "res_ok status = (200 \<le> status \<and> status \<le> 299)"

text \<open>
  Lines 104 to 109: the rest of the \<open>try\<close> block, which throws or goes through. Reading
  a property of \<open>null\<close> throws; any other value can be asked for \<open>flagged\<close> and \<open>reply\<close>.
\<close>

definition handleSend_try :: "call \<Rightarrow> fetch_result \<Rightarrow> string \<Rightarrow> state \<Rightarrow> fault + state" where
  "handleSend_try cl r now s =
     (case r of
        Rejected \<Rightarrow> Inl NetworkError
      | Response status b \<Rightarrow>
          if \<not> res_ok status then Inl (ServerError status)
          else (case b of
                  Malformed \<Rightarrow> Inl SyntaxError
                | Parsed d \<Rightarrow>
                    if d = JNull then Inl TypeError
                    else let s1 = (if truthy (data_flagged d) \<and> \<not> c_showCrisisModal cl
                                   then s\<lparr>showCrisisModal := True\<rparr> else s);
                             txt = or_else (data_reply d) (JString NO_REPLY_TEXT)
                         in Inr (snd (addMessage Assistant txt now s1))))"

text \<open>
  The \<open>try\<close> block with its \<open>catch\<close> and \<open>finally\<close>. The result is what the promise of
  \<open>handleSend\<close> settles to: \<open>Inl\<close> would be a rejection that reaches the caller.
\<close>

definition handleSend_resume :: "call \<Rightarrow> fetch_result \<Rightarrow> string \<Rightarrow> state \<Rightarrow> fault + state" where
  "handleSend_resume cl r now s =
     (case handleSend_try cl r now s of
        Inr s1 \<Rightarrow> Inr (s1\<lparr>loading := False\<rparr>)
      | Inl e \<Rightarrow>
          let s1 = s\<lparr>error := Some FETCH_ERROR\<rparr>;
              s2 = snd (addMessage Assistant (JString TROUBLE_TEXT) now s1)
          in Inr (s2\<lparr>loading := False\<rparr>))"

section \<open>The other event handlers\<close>

definition handleKeyDown :: "jsstring \<Rightarrow> bool \<Rightarrow> bool \<Rightarrow> string \<Rightarrow> state \<Rightarrow> state" where
  "handleKeyDown key metaKey ctrlKey now s =
     (if key = str ''Enter'' \<and> (metaKey \<or> ctrlKey) then handleSend_start now s else s)"

text \<open>The Send button is disabled while \<open>loading\<close> holds: a click then calls nothing.\<close>

definition click_Send :: "string \<Rightarrow> state \<Rightarrow> state" where
  "click_Send now s = (if loading s then s else handleSend_start now s)"

definition click_Clear :: "state \<Rightarrow> state" where
  "click_Clear s = s\<lparr>input := []\<rparr>"

definition onChange_input :: "jsstring \<Rightarrow> state \<Rightarrow> state" where
  "onChange_input v s = s\<lparr>input := v\<rparr>"

definition onChange_consent :: "bool \<Rightarrow> state \<Rightarrow> state" where
  "onChange_consent b s = s\<lparr>consentChecked := b\<rparr>"

definition click_Close :: "state \<Rightarrow> state" where
  "click_Close s = s\<lparr>showCrisisModal := False\<rparr>"

section \<open>The specification's vocabulary\<close>

text \<open>
  The reading of "case-insensitive substring". A character of the text stands for a
  character of the phrase when it is that character, or when the phrase has a small
  letter there and the text has a character whose lower-case form is that letter: its
  capital, and for \<open>k\<close> also the Kelvin sign U+212A. The phrase occurs in the text when
  some stretch of the text stands for it, character by character.
\<close>

definition stands_for :: "code_unit \<Rightarrow> code_unit \<Rightarrow> bool" where
  "stands_for c k =
     (c = k \<or> (0x61 \<le> k \<and> k \<le> 0x7A \<and> c + 0x20 = k) \<or> (k = 0x6B \<and> c = 0x212A))"

definition occurs_ignoring_case :: "jsstring \<Rightarrow> jsstring \<Rightarrow> bool" where
  "occurs_ignoring_case p t =
     list_ex (\<lambda>i. list_all2 stands_for (take (length p) (drop i t)) p) [0..<Suc (length t)]"

text \<open>The characters of the crisis phrases: the small letters and the space.\<close>

definition phrase_unit :: "code_unit \<Rightarrow> bool" where
  "phrase_unit k = (k = 0x20 \<or> (0x61 \<le> k \<and> k \<le> 0x7A))"

text \<open>
  The reading of the specification's words for the outcome of the transport call. It has
  failed when there is no response, when the status is not a success, or when the body
  cannot be used: it is not JSON, or it is \<open>null\<close>, which has no properties to read.
\<close>

definition transport_failed :: "fetch_result \<Rightarrow> bool" where
  "transport_failed r =
     (case r of
        Rejected \<Rightarrow> True
      | Response status b \<Rightarrow> if res_ok status then b = Malformed \<or> b = Parsed JNull else True)"

text \<open>
  The text of the assistant turn that the specification expects after a round trip: the
  apology after a failure; after a success the reply, and the fallback text when the
  reply is missing or empty. A reply is missing when the body has none or has \<open>null\<close> for
  it, and empty when it is the empty string; of the replies that are not strings, which
  the interface does not foresee, \<open>false\<close> and zero count as empty too.
\<close>

fun reply_or_fallback :: "json option \<Rightarrow> json" where
  "reply_or_fallback None = JString NO_REPLY_TEXT"
| "reply_or_fallback (Some JNull) = JString NO_REPLY_TEXT"
| "reply_or_fallback (Some (JString t)) = (if t = [] then JString NO_REPLY_TEXT else JString t)"
| "reply_or_fallback (Some (JBool b)) = (if b then JBool b else JString NO_REPLY_TEXT)"
| "reply_or_fallback (Some (JNumber x)) =
     (if x = Finite 0 then JString NO_REPLY_TEXT else JNumber x)"
| "reply_or_fallback (Some v) = v"

definition assistant_text :: "fetch_result \<Rightarrow> json" where
  "assistant_text r =
     (if transport_failed r then JString TROUBLE_TEXT
      else (case r of
              Response status (Parsed d) \<Rightarrow> reply_or_fallback (data_reply d)
            | _ \<Rightarrow> JString NO_REPLY_TEXT))"

text \<open>The role and the text of a message, and of an entry of the payload.\<close>

definition message_role_text :: "Message \<Rightarrow> role \<times> json" where
  "message_role_text m = (m_role m, m_text m)"

definition entry_role_text :: "entry \<Rightarrow> role \<times> json" where
  "entry_role_text e = (e_role e, e_text e)"

section \<open>Sessions used as examples\<close>

text \<open>A fresh session in which the user has ticked the consent box.\<close>

definition session_consented :: state where
  "session_consented = onChange_consent True (initial_state ''t0'' ''t1'')"

text \<open>The user has typed a greeting, with white space around it: a no-break space
  U+00A0 in front, a space and a byte order mark U+FEFF behind.\<close>

definition session_ready :: state where
  "session_ready = onChange_input ([0xA0] @ str ''hello'' @ [0x20, 0xFEFF]) session_consented"

text \<open>The Send button has been clicked; the response has not arrived.\<close>

definition session_waiting :: state where
  "session_waiting = click_Send ''t2'' session_ready"

text \<open>While waiting, the user types again.\<close>

definition session_typed_again :: state where
  "session_typed_again = onChange_input (str ''again'') session_waiting"

text \<open>The user has typed a sentence with a crisis phrase in it.\<close>

definition session_crisis :: state where
  "session_crisis = onChange_input (str ''I want to END my life'') session_consented"

text \<open>A user who has not consented types a greeting.\<close>

definition session_no_consent :: state where
  "session_no_consent = onChange_input (str ''hello'') (initial_state ''t0'' ''t1'')"

text \<open>
  That user clicks Send, is refused, and then replaces the text by white space only: a
  space, a no-break space and a line separator U+2028.
\<close>

definition session_blank_after_error :: state where
  "session_blank_after_error =
     onChange_input [0x20, 0xA0, 0x2028] (click_Send ''t2'' session_no_consent)"

section \<open>Facts about the text operations\<close>

text \<open>
  The executable definition of an occurrence up to case says what it should: the text
  splits into three parts, the middle one standing for the phrase.
\<close>

lemma occurs_ignoring_case_iff:
  "occurs_ignoring_case p t \<longleftrightarrow>
     (\<exists>i\<le>length t. list_all2 stands_for (take (length p) (drop i t)) p)"
  by (simp add: occurs_ignoring_case_def list_ex_iff Bex_def less_Suc_eq_le del: upt_Suc)

lemma occurs_ignoring_case_stretch:
  "occurs_ignoring_case p t \<longleftrightarrow> (\<exists>a b c. t = a @ b @ c \<and> list_all2 stands_for b p)"
proof
  assume "occurs_ignoring_case p t"
  then obtain i where i: "list_all2 stands_for (take (length p) (drop i t)) p"
    by (auto simp: occurs_ignoring_case_iff)
  have "t = take i t @ take (length p) (drop i t) @ drop (length p) (drop i t)"
    by (metis append_take_drop_id)
  with i show "\<exists>a b c. t = a @ b @ c \<and> list_all2 stands_for b p" by blast
next
  assume "\<exists>a b c. t = a @ b @ c \<and> list_all2 stands_for b p"
  then obtain a b c where t: "t = a @ b @ c" and b: "list_all2 stands_for b p" by blast
  from b have "length b = length p" by (rule list_all2_lengthD)
  then have "take (length p) (drop (length a) t) = b" by (simp add: t)
  moreover have "length a \<le> length t" by (simp add: t)
  ultimately show "occurs_ignoring_case p t"
    using b unfolding occurs_ignoring_case_iff by blast
qed

text \<open>
  Lower-casing one character of the text, seen from a character of a phrase. U+0130 is
  the one character with a form of two code units; it stands for no phrase character.
\<close>

lemma lower_unit_plain:
  assumes "phrase_unit k" and "c \<noteq> 0x130"
  shows "\<exists>c'. lower_unit c = [c'] \<and> (c' = Some k \<longleftrightarrow> stands_for c k)"
  using assms by (auto simp: lower_unit_def stands_for_def phrase_unit_def)

lemma lower_unit_dotted:
  "lower_unit 0x130 = [Some 0x69, None]"
  by (simp add: lower_unit_def)

lemma stands_for_dotted: "phrase_unit k \<Longrightarrow> \<not> stands_for 0x130 k"
  by (auto simp: stands_for_def phrase_unit_def)

lemma toLowerCase_Cons: "toLowerCase (c # cs) = lower_unit c @ toLowerCase cs"
  by (simp add: toLowerCase_def)

lemma startsWith_toLowerCase:
  assumes "list_all phrase_unit p" and "p \<noteq> [] \<longrightarrow> last p \<noteq> 0x69"
  shows "startsWith (toLowerCase t) (map Some p) \<longleftrightarrow>
         list_all2 stands_for (take (length p) t) p"
  using assms
proof (induction t arbitrary: p)
  case Nil
  then show ?case by (cases p) (simp_all add: toLowerCase_def)
next
  case (Cons c cs)
  show ?case
  proof (cases p)
    case Nil
    then show ?thesis by simp
  next
    case (Cons k ks)
    have k: "phrase_unit k" and ks: "list_all phrase_unit ks"
      using Cons.prems(1) Cons by simp_all
    have last_ks: "ks \<noteq> [] \<longrightarrow> last ks \<noteq> 0x69"
      using Cons.prems(2) Cons by auto
    show ?thesis
    proof (cases "c = 0x130")
      case True
      have "\<not> startsWith (Some 0x69 # None # toLowerCase cs) (Some k # map Some ks)"
      proof (cases ks)
        case Nil
        then have "k \<noteq> 0x69" using Cons.prems(2) Cons by simp
        then show ?thesis by simp
      next
        case (Cons k2 ks2)
        then show ?thesis by simp
      qed
      then show ?thesis
        using True Cons k stands_for_dotted [of k]
        by (simp add: toLowerCase_Cons lower_unit_dotted)
    next
      case False
      obtain c' where c': "lower_unit c = [c']" "c' = Some k \<longleftrightarrow> stands_for c k"
        using lower_unit_plain [OF k False] by blast
      show ?thesis
        using Cons c' Cons.IH [OF ks last_ks]
        by (simp add: toLowerCase_Cons)
    qed
  qed
qed

lemma str_includes_toLowerCase:
  assumes "list_all phrase_unit p" and "p \<noteq> []" and "last p \<noteq> 0x69"
  shows "str_includes (toLowerCase t) (map Some p) \<longleftrightarrow> occurs_ignoring_case p t"
proof (induction t)
  case Nil
  then show ?case
    using assms(2) by (cases p) (simp_all add: toLowerCase_def occurs_ignoring_case_iff)
next
  case (Cons c cs)
  obtain k ks where p: "p = k # ks" using assms(2) by (cases p) auto
  have k: "phrase_unit k" using assms(1) p by simp
  have step: "str_includes (toLowerCase (c # cs)) (map Some p) \<longleftrightarrow>
          startsWith (toLowerCase (c # cs)) (map Some p) \<or>
          str_includes (toLowerCase cs) (map Some p)"
  proof (cases "c = 0x130")
    case True
    then show ?thesis
      using p by (simp add: toLowerCase_Cons lower_unit_dotted)
  next
    case False
    obtain c' where "lower_unit c = [c']"
      using lower_unit_plain [OF k False] by blast
    then show ?thesis by (simp add: toLowerCase_Cons)
  qed
  have here: "startsWith (toLowerCase (c # cs)) (map Some p) \<longleftrightarrow>
          list_all2 stands_for (take (length p) (c # cs)) p"
    using startsWith_toLowerCase [of p "c # cs"] assms by simp
  have "occurs_ignoring_case p (c # cs) \<longleftrightarrow>
          list_all2 stands_for (take (length p) (c # cs)) p \<or> occurs_ignoring_case p cs"
  proof
    assume "occurs_ignoring_case p (c # cs)"
    then obtain i where i: "i \<le> length (c # cs)"
        "list_all2 stands_for (take (length p) (drop i (c # cs))) p"
      by (auto simp: occurs_ignoring_case_iff)
    show "list_all2 stands_for (take (length p) (c # cs)) p \<or> occurs_ignoring_case p cs"
    proof (cases i)
      case 0
      then show ?thesis using i by simp
    next
      case (Suc j)
      then show ?thesis using i by (auto simp: occurs_ignoring_case_iff)
    qed
  next
    assume "list_all2 stands_for (take (length p) (c # cs)) p \<or> occurs_ignoring_case p cs"
    then show "occurs_ignoring_case p (c # cs)"
    proof
      assume "list_all2 stands_for (take (length p) (c # cs)) p"
      then have "list_all2 stands_for (take (length p) (drop 0 (c # cs))) p" by simp
      then show ?thesis unfolding occurs_ignoring_case_iff by blast
    next
      assume "occurs_ignoring_case p cs"
      then obtain j where "j \<le> length cs" "list_all2 stands_for (take (length p) (drop j cs)) p"
        by (auto simp: occurs_ignoring_case_iff)
      then have "Suc j \<le> length (c # cs) \<and>
                 list_all2 stands_for (take (length p) (drop (Suc j) (c # cs))) p"
        by simp
      then show ?thesis unfolding occurs_ignoring_case_iff by blast
    qed
  qed
  then show ?case using step here Cons.IH by simp
qed

lemma keywords_are_phrases:
  "list_all (\<lambda>kw. list_all phrase_unit kw \<and> kw \<noteq> [] \<and> last kw \<noteq> 0x69) CRISIS_KEYWORDS"
  by (simp add: CRISIS_KEYWORDS_def str_def phrase_unit_def)

lemma containsCrisis_iff:
  "containsCrisis t = list_ex (\<lambda>kw. occurs_ignoring_case kw t) CRISIS_KEYWORDS"
proof -
  have kw: "str_includes (toLowerCase t) (map Some kw) \<longleftrightarrow> occurs_ignoring_case kw t"
    if "kw \<in> set CRISIS_KEYWORDS" for kw
    using keywords_are_phrases that str_includes_toLowerCase [of kw t]
    by (simp add: list_all_iff)
  have ne: "\<not> occurs_ignoring_case kw []" if "kw \<in> set CRISIS_KEYWORDS" for kw
    using keywords_are_phrases that
    by (auto simp: list_all_iff occurs_ignoring_case_iff)
  show ?thesis
  proof (cases "t = []")
    case True
    then show ?thesis using ne by (simp add: containsCrisis_def list_ex_iff)
  next
    case False
    then show ?thesis using kw by (simp add: containsCrisis_def list_ex_iff)
  qed
qed

section \<open>Facts about the handlers\<close>

lemma snd_addMessage:
  "snd (addMessage r txt now s) =
     s\<lparr>messageId := messageId s + 1,
       messages := messages s @ [\<lparr>m_id = messageId s, m_role = r, m_text = txt, m_time = now\<rparr>]\<rparr>"
  by (simp add: addMessage_def Let_def)

text \<open>The state in which an accepted submit leaves the component when it suspends.\<close>

lemma handleSend_start_accepted:
  assumes "trim (input s) \<noteq> []" and "consentChecked s"
  shows "handleSend_start now s =
     s\<lparr>error := None,
       messageId := messageId s + 1,
       messages := messages s @
          [\<lparr>m_id = messageId s, m_role = User, m_text = JString (trim (input s)),
            m_time = now\<rparr>],
       input := [],
       showCrisisModal := (containsCrisis (trim (input s)) \<or> showCrisisModal s),
       loading := True,
       requests := requests s @
          [\<lparr>c_payload = payload (messages s) (tone s) (userName s) (trim (input s)),
            c_showCrisisModal = showCrisisModal s\<rparr>]\<rparr>"
  using assms
  by (simp add: handleSend_start_def handleSend_dispatch_def handleSend_prepare_def
      snd_addMessage Let_def)

text \<open>\<open>||\<close> keeps the reply unless it is missing or empty.\<close>

lemma or_else_fallback: "or_else a (JString NO_REPLY_TEXT) = reply_or_fallback a"
proof (cases a)
  case None
  then show ?thesis by (simp add: or_else_def)
next
  case (Some v)
  then show ?thesis by (cases v) (simp_all add: or_else_def)
qed

lemma handleSend_try_failed:
  "transport_failed r \<Longrightarrow> \<exists>e. handleSend_try cl r now s = Inl e"
  by (auto simp: transport_failed_def handleSend_try_def
      split: fetch_result.splits body.splits if_splits)

lemma handleSend_try_ok:
  "\<not> transport_failed r \<Longrightarrow>
   handleSend_try cl r now s =
     Inr (s\<lparr>showCrisisModal :=
              (case r of
                 Response st (Parsed d) \<Rightarrow>
                   (truthy (data_flagged d) \<and> \<not> c_showCrisisModal cl) \<or> showCrisisModal s
               | _ \<Rightarrow> showCrisisModal s),
            messageId := messageId s + 1,
            messages := messages s @
              [\<lparr>m_id = messageId s, m_role = Assistant, m_text = assistant_text r,
                m_time = now\<rparr>]\<rparr>)"
  by (auto simp: transport_failed_def assistant_text_def handleSend_try_def snd_addMessage
      or_else_fallback Let_def split: fetch_result.splits body.splits if_splits)

lemma handleSend_resume_failed:
  assumes "transport_failed r"
  shows "handleSend_resume cl r now s =
     Inr (s\<lparr>error := Some FETCH_ERROR,
            messageId := messageId s + 1,
            messages := messages s @
              [\<lparr>m_id = messageId s, m_role = Assistant, m_text = JString TROUBLE_TEXT,
                m_time = now\<rparr>],
            loading := False\<rparr>)"
proof -
  obtain e where "handleSend_try cl r now s = Inl e"
    using handleSend_try_failed [OF assms] by blast
  then show ?thesis
    by (simp add: handleSend_resume_def snd_addMessage Let_def)
qed

lemma handleSend_resume_ok:
  assumes "\<not> transport_failed r"
  shows "handleSend_resume cl r now s =
     Inr (s\<lparr>showCrisisModal :=
              (case r of
                 Response st (Parsed d) \<Rightarrow>
                   (truthy (data_flagged d) \<and> \<not> c_showCrisisModal cl) \<or> showCrisisModal s
               | _ \<Rightarrow> showCrisisModal s),
            messageId := messageId s + 1,
            messages := messages s @
              [\<lparr>m_id = messageId s, m_role = Assistant, m_text = assistant_text r,
                m_time = now\<rparr>],
            loading := False\<rparr>)"
  by (simp add: handleSend_resume_def handleSend_try_ok [OF assms])

text \<open>
  In whatever state it is resumed, the handler appends one assistant turn, never takes
  the crisis flag down, and never issues a call.
\<close>

lemma handleSend_resume_appends:
  "\<exists>s'. handleSend_resume cl r now s = Inr s' \<and>
        messages s' = messages s @
          [\<lparr>m_id = messageId s, m_role = Assistant, m_text = assistant_text r,
            m_time = now\<rparr>]"
proof (cases "transport_failed r")
  case True
  then show ?thesis by (simp add: handleSend_resume_failed assistant_text_def)
next
  case False
  then show ?thesis by (simp add: handleSend_resume_ok)
qed

lemma handleSend_resume_keeps_flag:
  "\<exists>s'. handleSend_resume cl r now s = Inr s' \<and> requests s' = requests s \<and>
        (showCrisisModal s \<longrightarrow> showCrisisModal s')"
proof (cases "transport_failed r")
  case True
  then show ?thesis by (simp add: handleSend_resume_failed)
next
  case False
  then show ?thesis
    by (simp add: handleSend_resume_ok split: fetch_result.splits body.splits)
qed

lemma payload_messages:
  "p_messages (payload msgs tn un t) = map as_entry (slice_last 19 msgs) @ [user_entry t]"
proof -
  have "length msgs + 1 - 20 = length msgs - 19" by simp
  moreover have "length msgs - 19 - length msgs = 0" by simp
  ultimately show ?thesis
    by (simp add: payload_def slice_last_def drop_map)
qed

text \<open>An entry of the payload has the role and the text of what it was made from.\<close>

lemma entry_role_text_as_entry: "entry_role_text (as_entry m) = message_role_text m"
  by (simp add: entry_role_text_def message_role_text_def as_entry_def)

lemma entry_role_text_user_entry: "entry_role_text (user_entry t) = (User, JString t)"
  by (simp add: entry_role_text_def user_entry_def)

lemma payload_role_text:
  "map entry_role_text (p_messages (payload msgs tn un t)) =
     slice_last 20 (map message_role_text msgs @ [(User, JString t)])"
proof -
  have "length msgs + 1 - 20 = length msgs - 19" by simp
  moreover have "length msgs - 19 - length msgs = 0" by simp
  ultimately show ?thesis
    by (simp add: payload_messages slice_last_def drop_map entry_role_text_as_entry
        entry_role_text_user_entry comp_def)
qed

section \<open>The example sessions, evaluated\<close>

lemma session_consented_eval:
  "consentChecked session_consented \<and> input session_consented = [] \<and>
   error session_consented = None \<and> \<not> showCrisisModal session_consented \<and>
   \<not> loading session_consented \<and> requests session_consented = [] \<and>
   messageId session_consented = 2 \<and>
   messages session_consented = messages (initial_state ''t0'' ''t1'')"
  by (simp add: session_consented_def onChange_consent_def initial_state_def)

lemma session_ready_eval:
  "trim (input session_ready) = str ''hello'' \<and> consentChecked session_ready \<and>
   messages session_ready = messages (initial_state ''t0'' ''t1'') \<and>
   requests session_ready = [] \<and> \<not> loading session_ready \<and> messageId session_ready = 2"
  using session_consented_eval
  by (simp add: session_ready_def onChange_input_def trim_def isWhiteSpace_def str_def)

lemma str_hello_not_empty: "str ''hello'' \<noteq> []"
  by (simp add: str_def)

lemma session_waiting_eval:
  "loading session_waiting \<and> length (requests session_waiting) = 1 \<and>
   consentChecked session_waiting \<and> messageId session_waiting = 3 \<and>
   error session_waiting = None \<and>
   map m_role (messages session_waiting) = [System, Assistant, User] \<and>
   map m_text (messages session_waiting) =
     [JString SYSTEM_TEXT, JString GREETING_TEXT, JString (str ''hello'')]"
  using session_ready_eval str_hello_not_empty
  by (simp add: session_waiting_def click_Send_def handleSend_start_accepted initial_state_def)

lemma session_crisis_eval:
  "trim (input session_crisis) = str ''I want to END my life'' \<and>
   consentChecked session_crisis \<and>
   \<not> showCrisisModal session_crisis \<and> requests session_crisis = []"
  using session_consented_eval
  by (simp add: session_crisis_def onChange_input_def trim_def isWhiteSpace_def str_def)

lemma crisis_example: "containsCrisis (str ''I want to END my life'')"
  by code_simp

lemma session_no_consent_eval:
  "trim (input session_no_consent) = str ''hello'' \<and> \<not> consentChecked session_no_consent \<and>
   error session_no_consent = None \<and> \<not> loading session_no_consent \<and>
   requests session_no_consent = [] \<and> length (messages session_no_consent) = 2"
  by (simp add: session_no_consent_def onChange_input_def initial_state_def trim_def
      isWhiteSpace_def str_def)

lemma session_blank_after_error_eval:
  "input session_blank_after_error = [0x20, 0xA0, 0x2028] \<and>
   trim (input session_blank_after_error) = [] \<and>
   error session_blank_after_error = Some CONSENT_ERROR"
  using session_no_consent_eval str_hello_not_empty
  by (simp add: session_blank_after_error_def onChange_input_def click_Send_def
      handleSend_start_def Let_def trim_def isWhiteSpace_def)

section \<open>The claims\<close>

subsection \<open>C1: the crisis flag is up before the request leaves\<close>

text \<open>
  Claim C1. When the trimmed input passes validation and the local classifier finds a crisis
  phrase in it, the crisis flag \<open>showCrisisModal\<close> is true in the state in which the fetch
  call is made, where no request has been issued yet; the handler then issues its one
  request, and the flag is true when the handler is done, whatever the call settled to:
  success or failure. (The handler is resumed in the state it left; only the Close button
  of the modal takes the flag down.)
\<close>

theorem crisis_flag_set_before_dispatch:
  assumes "trim (input s) \<noteq> []" and "consentChecked s" and "containsCrisis (trim (input s))"
  shows "handleSend_start now s =
           handleSend_dispatch s (handleSend_prepare now (s\<lparr>error := None\<rparr>)) \<and>
         showCrisisModal (handleSend_prepare now (s\<lparr>error := None\<rparr>)) \<and>
         requests (handleSend_prepare now (s\<lparr>error := None\<rparr>)) = requests s \<and>
         length (requests (handleSend_start now s)) = length (requests s) + 1 \<and>
         showCrisisModal (handleSend_start now s) \<and>
         (\<exists>s'. handleSend_resume (last (requests (handleSend_start now s))) r now'
                  (handleSend_start now s) = Inr s' \<and> showCrisisModal s')"
proof -
  have flag: "showCrisisModal (handleSend_start now s)"
    using assms by (simp add: handleSend_start_accepted)
  have "\<exists>s'. handleSend_resume (last (requests (handleSend_start now s))) r now'
                  (handleSend_start now s) = Inr s' \<and> showCrisisModal s'"
    using handleSend_resume_keeps_flag
      [of "last (requests (handleSend_start now s))" r now' "handleSend_start now s"] flag
    by blast
  moreover have "handleSend_start now s =
           handleSend_dispatch s (handleSend_prepare now (s\<lparr>error := None\<rparr>))"
    using assms by (simp add: handleSend_start_def Let_def)
  moreover have "showCrisisModal (handleSend_prepare now (s\<lparr>error := None\<rparr>)) \<and>
         requests (handleSend_prepare now (s\<lparr>error := None\<rparr>)) = requests s"
    using assms by (simp add: handleSend_prepare_def snd_addMessage Let_def)
  moreover have "length (requests (handleSend_start now s)) = length (requests s) + 1"
    using assms by (simp add: handleSend_start_accepted)
  ultimately show ?thesis using flag by blast
qed

text \<open>
  The scenario of the specification: the user sends a sentence with "end my life" in it,
  in capitals, and the server answers with status 500.
\<close>

theorem crisis_flag_set_before_dispatch_witness:
  "trim (input session_crisis) \<noteq> [] \<and> consentChecked session_crisis \<and>
   containsCrisis (trim (input session_crisis)) \<and> \<not> showCrisisModal session_crisis \<and>
   showCrisisModal (handleSend_prepare ''t2'' (session_crisis\<lparr>error := None\<rparr>)) \<and>
   requests (handleSend_prepare ''t2'' (session_crisis\<lparr>error := None\<rparr>)) = [] \<and>
   showCrisisModal (handleSend_start ''t2'' session_crisis) \<and>
   (\<exists>s'. handleSend_resume (last (requests (handleSend_start ''t2'' session_crisis)))
            (Response 500 Malformed) ''t3'' (handleSend_start ''t2'' session_crisis) = Inr s' \<and>
          showCrisisModal s')"
proof -
  have ne: "str ''I want to END my life'' \<noteq> []" by (simp add: str_def)
  have h1: "trim (input session_crisis) \<noteq> []" and h2: "consentChecked session_crisis"
    and h3: "containsCrisis (trim (input session_crisis))"
    using session_crisis_eval crisis_example ne by simp_all
  show ?thesis
    using crisis_flag_set_before_dispatch
      [OF h1 h2 h3, of "''t2''" "Response 500 Malformed" "''t3''", THEN conjunct2]
      h1 h2 h3 session_crisis_eval
    by simp
qed

subsection \<open>C2: the classifier\<close>

text \<open>
  Claim C2. For every text, \<open>containsCrisis\<close> is true exactly when one of the eight crisis
  phrases occurs in the text as a substring up to the case of the letters, and it is false
  on the empty text.
\<close>

theorem containsCrisis_case_insensitive_substring:
  "containsCrisis t =
     (occurs_ignoring_case (str ''suicide'') t \<or>
      occurs_ignoring_case (str ''kill myself'') t \<or>
      occurs_ignoring_case (str ''end my life'') t \<or>
      occurs_ignoring_case (str ''want to die'') t \<or>
      occurs_ignoring_case (str ''hurt myself'') t \<or>
      occurs_ignoring_case (str ''harm myself'') t \<or>
      occurs_ignoring_case (str ''violent'') t \<or>
      occurs_ignoring_case (str ''no reason to live'') t)
   \<and> containsCrisis [] = False"
proof (intro conjI)
  show "containsCrisis [] = False" by (simp add: containsCrisis_def)
qed (simp add: containsCrisis_iff CRISIS_KEYWORDS_def)

subsection \<open>C3: a rejected submit\<close>

text \<open>
  Claim C3, as amended. A submit that is rejected, because the input trims to nothing or
  because consent is not given, appends no turn, leaves \<open>loading\<close> and the id counter as
  they are and issues no request. When the input does not trim to nothing (so consent is
  what is missing), \<open>error\<close> is set to the consent message; when the input trims to
  nothing, \<open>error\<close> is left as it was.
\<close>

theorem rejected_submit_effects:
  assumes "trim (input s) = [] \<or> \<not> consentChecked s"
  shows "messages (handleSend_start now s) = messages s \<and>
         messageId (handleSend_start now s) = messageId s \<and>
         loading (handleSend_start now s) = loading s \<and>
         requests (handleSend_start now s) = requests s \<and>
         error (handleSend_start now s) =
           (if trim (input s) = [] then error s else Some CONSENT_ERROR)"
  using assms by (auto simp: handleSend_start_def Let_def)

text \<open>A user who has not consented sends a greeting.\<close>

theorem rejected_submit_effects_witness:
  "(trim (input session_no_consent) = [] \<or> \<not> consentChecked session_no_consent) \<and>
   length (messages (handleSend_start ''t2'' session_no_consent)) = 2 \<and>
   \<not> loading (handleSend_start ''t2'' session_no_consent) \<and>
   requests (handleSend_start ''t2'' session_no_consent) = [] \<and>
   error (handleSend_start ''t2'' session_no_consent) = Some CONSENT_ERROR"
proof -
  have h: "trim (input session_no_consent) = [] \<or> \<not> consentChecked session_no_consent"
    using session_no_consent_eval by simp
  show ?thesis
    using rejected_submit_effects [OF h, of "''t2''"] h session_no_consent_eval
      str_hello_not_empty
    by simp
qed

text \<open>
  The claim as the specification words it fails for the empty input: with consent given
  and nothing typed, the submit leaves \<open>error\<close> unset.
\<close>

theorem empty_submit_sets_no_error:
  "trim (input session_consented) = [] \<and> consentChecked session_consented \<and>
   error (handleSend_start ''t2'' session_consented) = None"
  using session_consented_eval by (simp add: handleSend_start_def trim_def)

subsection \<open>C4: an accepted submit adds two turns\<close>

text \<open>
  Claim C4. A submit that passes validation appends a user turn with the trimmed input
  before it suspends. When its round trip ends, in whatever state the component is by
  then, the handler appends one assistant turn: it carries the reply after a success, the
  fallback text when the reply is missing or empty, and the apology after a failure. So
  the submit makes the log longer by exactly two turns, and when nothing else happens in
  between they are the last two, the user turn followed by the assistant turn.
\<close>

theorem accepted_submit_appends_two_turns:
  assumes "trim (input s) \<noteq> []" and "consentChecked s"
  shows "messages (handleSend_start now s) =
           messages s @
             [\<lparr>m_id = messageId s, m_role = User, m_text = JString (trim (input s)),
               m_time = now\<rparr>] \<and>
         (\<exists>s'. handleSend_resume cl r now' s2 = Inr s' \<and>
            messages s' = messages s2 @
              [\<lparr>m_id = messageId s2, m_role = Assistant, m_text = assistant_text r,
                m_time = now'\<rparr>]) \<and>
         (\<exists>s'. handleSend_resume (last (requests (handleSend_start now s))) r now'
                  (handleSend_start now s) = Inr s' \<and>
            messages s' = messages s @
              [\<lparr>m_id = messageId s, m_role = User, m_text = JString (trim (input s)),
                m_time = now\<rparr>,
               \<lparr>m_id = messageId s + 1, m_role = Assistant, m_text = assistant_text r,
                m_time = now'\<rparr>] \<and>
            length (messages s') = length (messages s) + 2)"
proof (intro conjI)
  show "messages (handleSend_start now s) =
           messages s @
             [\<lparr>m_id = messageId s, m_role = User, m_text = JString (trim (input s)),
               m_time = now\<rparr>]"
    by (simp add: handleSend_start_accepted [OF assms])
  show "\<exists>s'. handleSend_resume cl r now' s2 = Inr s' \<and>
            messages s' = messages s2 @
              [\<lparr>m_id = messageId s2, m_role = Assistant, m_text = assistant_text r,
                m_time = now'\<rparr>]"
    by (rule handleSend_resume_appends)
  show "\<exists>s'. handleSend_resume (last (requests (handleSend_start now s))) r now'
                  (handleSend_start now s) = Inr s' \<and>
            messages s' = messages s @
              [\<lparr>m_id = messageId s, m_role = User, m_text = JString (trim (input s)),
                m_time = now\<rparr>,
               \<lparr>m_id = messageId s + 1, m_role = Assistant, m_text = assistant_text r,
                m_time = now'\<rparr>] \<and>
            length (messages s') = length (messages s) + 2"
    using handleSend_resume_appends
      [of "last (requests (handleSend_start now s))" r now' "handleSend_start now s"]
    by (auto simp: handleSend_start_accepted [OF assms])
qed

text \<open>
  The scenario of the specification: a greeting is sent, with white space around it,
  and the service replies.
\<close>

theorem accepted_submit_appends_two_turns_witness:
  "trim (input session_ready) \<noteq> [] \<and> consentChecked session_ready \<and>
   (\<exists>s'. handleSend_resume (last (requests (handleSend_start ''t2'' session_ready)))
            (Response 200 (Parsed (JObject [(str ''reply'', JString (str ''Hi there''))])))
            ''t3'' (handleSend_start ''t2'' session_ready) = Inr s' \<and>
          map m_role (messages s') = [System, Assistant, User, Assistant] \<and>
          map m_text (messages s') =
            [JString SYSTEM_TEXT, JString GREETING_TEXT, JString (str ''hello''),
             JString (str ''Hi there'')] \<and>
          map m_id (messages s') = [0, 1, 2, 3])"
proof -
  have h1: "trim (input session_ready) \<noteq> []" and h2: "consentChecked session_ready"
    using session_ready_eval str_hello_not_empty by simp_all
  have t: "assistant_text
             (Response 200 (Parsed (JObject [(str ''reply'', JString (str ''Hi there''))])))
             = JString (str ''Hi there'')"
    by (simp add: assistant_text_def transport_failed_def res_ok_def data_reply_def
        member_def str_def)
  show ?thesis
    using accepted_submit_appends_two_turns
      [OF h1 h2, of "''t2''" "last (requests (handleSend_start ''t2'' session_ready))"
        "Response 200 (Parsed (JObject [(str ''reply'', JString (str ''Hi there''))]))"
        "''t3''" "handleSend_start ''t2'' session_ready", THEN conjunct2, THEN conjunct2]
      h1 h2 session_ready_eval t
    by (auto simp: initial_state_def)
qed

subsection \<open>C5: a failed round trip\<close>

text \<open>
  Claim C5. When the transport call has failed (no response, a status that is not a
  success, or an unusable body), the resumed handler sets \<open>error\<close> to the fixed message,
  appends an assistant turn with the fixed apology, leaves \<open>loading\<close> false, and its promise
  is fulfilled: no fault reaches the caller. This holds in whatever state the handler is
  resumed.
\<close>

theorem failed_transport_recovered:
  assumes "transport_failed r"
  shows "\<exists>s'. handleSend_resume cl r now s = Inr s' \<and>
           error s' = Some FETCH_ERROR \<and>
           messages s' = messages s @
             [\<lparr>m_id = messageId s, m_role = Assistant, m_text = JString TROUBLE_TEXT,
               m_time = now\<rparr>] \<and>
           loading s' = False"
  by (simp add: handleSend_resume_failed [OF assms])

text \<open>The scenario of the specification: the server answers with status 500.\<close>

theorem failed_transport_recovered_witness:
  "transport_failed (Response 500 (Parsed (JObject [(str ''reply'', JString (str ''late''))]))) \<and>
   loading session_waiting \<and> error session_waiting = None \<and>
   (\<exists>s'. handleSend_resume (last (requests session_waiting))
            (Response 500 (Parsed (JObject [(str ''reply'', JString (str ''late''))])))
            ''t3'' session_waiting = Inr s' \<and>
          error s' = Some FETCH_ERROR \<and>
          map m_text (messages s') =
            [JString SYSTEM_TEXT, JString GREETING_TEXT, JString (str ''hello''),
             JString TROUBLE_TEXT] \<and>
          \<not> loading s')"
proof -
  have h: "transport_failed
             (Response 500 (Parsed (JObject [(str ''reply'', JString (str ''late''))])))"
    by (simp add: transport_failed_def res_ok_def)
  show ?thesis
    using failed_transport_recovered
      [OF h, of "last (requests session_waiting)" "''t3''" session_waiting]
      h session_waiting_eval
    by auto
qed

subsection \<open>C6: the window of the payload\<close>

text \<open>
  Claim C6. For every log and every text to send, the payload has at most 20 message
  entries: the last entries of the log followed by the entry for the text to send (the
  older ones are dropped), so the last entry carries that text. In the request that an
  accepted submit issues, the text is the trimmed input, and the roles and texts of the
  entries are those of the last 20 turns of the log as it is after the submit has appended
  its user turn: that turn is there once, it is not counted twice and not dropped.
\<close>

theorem payload_window:
  assumes "trim (input s) \<noteq> []" and "consentChecked s"
  shows "length (p_messages (payload msgs tn un t)) \<le> 20 \<and>
         length (p_messages (payload msgs tn un t)) = min 20 (length msgs + 1) \<and>
         suffix (p_messages (payload msgs tn un t)) (map as_entry msgs @ [user_entry t]) \<and>
         p_messages (payload msgs tn un t) \<noteq> [] \<and>
         last (p_messages (payload msgs tn un t)) = user_entry t \<and>
         e_text (last (p_messages (payload msgs tn un t))) = JString t \<and>
         c_payload (last (requests (handleSend_start now s))) =
           payload (messages s) (tone s) (userName s) (trim (input s)) \<and>
         map entry_role_text
             (p_messages (c_payload (last (requests (handleSend_start now s))))) =
           slice_last 20 (map message_role_text (messages (handleSend_start now s))) \<and>
         length (p_messages (c_payload (last (requests (handleSend_start now s))))) \<le> 20 \<and>
         e_text (last (p_messages (c_payload (last (requests (handleSend_start now s)))))) =
           JString (trim (input s))"
proof -
  have len: "length (p_messages (payload msgs tn un t)) = min 20 (length msgs + 1)"
    for msgs tn un t
    by (simp add: payload_def slice_last_def)
  have suf: "suffix (p_messages (payload msgs tn un t)) (map as_entry msgs @ [user_entry t])"
    by (simp add: payload_def slice_last_def suffix_drop)
  have req: "c_payload (last (requests (handleSend_start now s))) =
           payload (messages s) (tone s) (userName s) (trim (input s))"
    by (simp add: handleSend_start_accepted [OF assms])
  have log: "map message_role_text (messages (handleSend_start now s)) =
           map message_role_text (messages s) @ [(User, JString (trim (input s)))]"
    by (simp add: handleSend_start_accepted [OF assms] message_role_text_def)
  have window: "map entry_role_text
             (p_messages (c_payload (last (requests (handleSend_start now s))))) =
           slice_last 20 (map message_role_text (messages (handleSend_start now s)))"
    unfolding req log by (rule payload_role_text)
  show ?thesis
    using len suf req window by (simp add: payload_messages user_entry_def)
qed

text \<open>The first submit of a session: the payload has the two seed turns and the greeting.\<close>

theorem payload_window_witness:
  "trim (input session_ready) \<noteq> [] \<and> consentChecked session_ready \<and>
   map entry_role_text
       (p_messages (c_payload (last (requests (handleSend_start ''t2'' session_ready))))) =
     [(System, JString SYSTEM_TEXT), (Assistant, JString GREETING_TEXT),
      (User, JString (str ''hello''))] \<and>
   map message_role_text (messages (handleSend_start ''t2'' session_ready)) =
     [(System, JString SYSTEM_TEXT), (Assistant, JString GREETING_TEXT),
      (User, JString (str ''hello''))] \<and>
   e_text (last (p_messages (c_payload (last (requests (handleSend_start ''t2'' session_ready))))))
     = JString (str ''hello'')"
proof -
  have h1: "trim (input session_ready) \<noteq> []" and h2: "consentChecked session_ready"
    using session_ready_eval str_hello_not_empty by simp_all
  have log: "map message_role_text (messages (handleSend_start ''t2'' session_ready)) =
     [(System, JString SYSTEM_TEXT), (Assistant, JString GREETING_TEXT),
      (User, JString (str ''hello''))]"
    using session_ready_eval
    by (simp add: handleSend_start_accepted [OF h1 h2] initial_state_def
        message_role_text_def)
  note w = payload_window [OF h1 h2, of "[]" "[]" "[]" "[]" "''t2''"]
  from w have "map entry_role_text
       (p_messages (c_payload (last (requests (handleSend_start ''t2'' session_ready))))) =
     slice_last 20 (map message_role_text (messages (handleSend_start ''t2'' session_ready)))"
    by blast
  then have a: "map entry_role_text
       (p_messages (c_payload (last (requests (handleSend_start ''t2'' session_ready))))) =
     [(System, JString SYSTEM_TEXT), (Assistant, JString GREETING_TEXT),
      (User, JString (str ''hello''))]"
    by (simp add: log slice_last_def)
  from w have "e_text (last (p_messages (c_payload (last (requests
       (handleSend_start ''t2'' session_ready)))))) = JString (trim (input session_ready))"
    by blast
  then have b: "e_text (last (p_messages (c_payload (last (requests
       (handleSend_start ''t2'' session_ready)))))) = JString (str ''hello'')"
    using session_ready_eval by simp
  show ?thesis
    using h1 h2 a b log by blast
qed

subsection \<open>C7: what an entry of the payload carries\<close>

text \<open>
  Claim C7, at the first message of a fresh session. The claim says that every entry of
  the payload carries a role and a text and nothing else, as the type \<open>Payload\<close> of the
  source declares it. In the request that the first submit of a session issues, the two
  entries taken from the log carry their \<open>id\<close> and their \<open>time\<close> as well: the stored
  messages are passed on as they are. Only the entry for the text being sent is without
  them. The tone and the user's name are attached as the claim says.
\<close>

theorem payload_entries_carry_id_and_time:
  "map e_id (p_messages (c_payload (last (requests (handleSend_start ''t2'' session_ready)))))
     = [Some 0, Some 1, None] \<and>
   map e_time (p_messages (c_payload (last (requests (handleSend_start ''t2'' session_ready)))))
     = [Some ''t0'', Some ''t1'', None] \<and>
   map e_text (p_messages (c_payload (last (requests (handleSend_start ''t2'' session_ready)))))
     = [JString SYSTEM_TEXT, JString GREETING_TEXT, JString (str ''hello'')] \<and>
   s_tone (p_settings (c_payload (last (requests (handleSend_start ''t2'' session_ready)))))
     = str ''compassionate'' \<and>
   md_userName (p_metadata (c_payload (last (requests (handleSend_start ''t2'' session_ready)))))
     = []"
proof -
  have h1: "trim (input session_ready) \<noteq> []" and h2: "consentChecked session_ready"
    using session_ready_eval str_hello_not_empty by simp_all
  have t: "tone session_ready = str ''compassionate'' \<and> userName session_ready = []"
    by (simp add: session_ready_def session_consented_def onChange_input_def
        onChange_consent_def initial_state_def)
  show ?thesis
    using session_ready_eval t
    by (simp add: handleSend_start_accepted [OF h1 h2] payload_messages slice_last_def
        initial_state_def as_entry_def user_entry_def)
       (simp add: payload_def)
qed

subsection \<open>C8: a second submit while a request is in flight\<close>

text \<open>
  Claim C8, at a session that is waiting for a response. The user has sent a greeting and
  typed again; \<open>loading\<close> is true and one request is in flight. A click on the Send button
  does nothing, as the claim says. The key combination Ctrl+Enter is not held back: it
  issues a second request while the first one has not settled.
\<close>

theorem second_request_by_keyboard_while_loading:
  "loading session_typed_again \<and>
   length (requests session_typed_again) = 1 \<and>
   click_Send ''t3'' session_typed_again = session_typed_again \<and>
   length (requests (handleKeyDown (str ''Enter'') False True ''t3'' session_typed_again)) = 2 \<and>
   loading (handleKeyDown (str ''Enter'') False True ''t3'' session_typed_again)"
proof -
  have a: "trim (input session_typed_again) \<noteq> []"
    by (simp add: session_typed_again_def onChange_input_def trim_def isWhiteSpace_def
        str_def)
  have b: "consentChecked session_typed_again \<and> loading session_typed_again \<and>
           length (requests session_typed_again) = 1"
    using session_waiting_eval by (simp add: session_typed_again_def onChange_input_def)
  show ?thesis
    using a b by (simp add: click_Send_def handleKeyDown_def handleSend_start_accepted)
qed

subsection \<open>C9: the Clear button\<close>

text \<open>
  Claim C9, as amended. The Clear button empties the input and leaves the message log and
  the id counter as they are. The two-turn seed, a system turn with the instructions and
  an assistant turn with the greeting, with ids 0 and 1, is the log a session starts with,
  and the first id assigned after that is 2.
\<close>

theorem clear_keeps_log_and_seed_is_initial:
  "messages (click_Clear s) = messages s \<and>
   messageId (click_Clear s) = messageId s \<and>
   input (click_Clear s) = [] \<and>
   map m_role (messages (initial_state t0 t1)) = [System, Assistant] \<and>
   map m_id (messages (initial_state t0 t1)) = [0, 1] \<and>
   map m_text (messages (initial_state t0 t1)) = [JString SYSTEM_TEXT, JString GREETING_TEXT] \<and>
   messageId (initial_state t0 t1) = 2 \<and>
   m_id (fst (addMessage r txt now (initial_state t0 t1))) = 2"
  by (simp add: click_Clear_def initial_state_def addMessage_def Let_def)

text \<open>
  The claim as the specification words it fails once a turn has been added: after Clear
  the log still has its three turns and the next id is 3.
\<close>

theorem clear_does_not_reset_log:
  "map m_role (messages (click_Clear session_waiting)) = [System, Assistant, User] \<and>
   messageId (click_Clear session_waiting) = 3"
  using session_waiting_eval by (simp add: click_Clear_def)

subsection \<open>C10: the empty input\<close>

text \<open>
  Claim C10. When the input trims to the empty string the submit handler changes nothing
  at all, whether it is reached from the button or from the keyboard: the state after is
  the state before, so an \<open>error\<close> from an earlier attempt stays as it is.
\<close>

theorem empty_submit_changes_nothing:
  assumes "trim (input s) = []"
  shows "handleSend_start now s = s \<and> click_Send now s = s \<and>
         handleKeyDown key metaKey ctrlKey now s = s"
  using assms by (simp add: handleSend_start_def click_Send_def handleKeyDown_def)

text \<open>
  A user who was refused for lack of consent replaces the text by a space, a no-break
  space and a line separator, and sends.
\<close>

theorem empty_submit_changes_nothing_witness:
  "input session_blank_after_error = [0x20, 0xA0, 0x2028] \<and>
   trim (input session_blank_after_error) = [] \<and>
   handleSend_start ''t3'' session_blank_after_error = session_blank_after_error \<and>
   error (handleSend_start ''t3'' session_blank_after_error) = Some CONSENT_ERROR"
proof -
  have h: "trim (input session_blank_after_error) = []"
    using session_blank_after_error_eval by blast
  show ?thesis
    using empty_submit_changes_nothing [OF h, of "''t3''"] h session_blank_after_error_eval
    by (simp add: trim_def isWhiteSpace_def)
qed

end
